theory Spec2Isabelle
  imports Complex_Main
begin

section \<open>Python values used by the controller and the classifier\<close>

text \<open>
  Python floats are modelled as reals, Python integers as \<open>int\<close>. \<open>int(x)\<close> on a float
  truncates towards zero; \<open>round(x, n)\<close> rounds to \<open>n\<close> decimals, ties to even.
\<close>

datatype py_error = ValueError | AttributeError | TypeError | ZeroDivisionError

definition py_int :: "real \<Rightarrow> int" where
  "py_int x = (if 0 \<le> x then \<lfloor>x\<rfloor> else \<lceil>x\<rceil>)"

definition round_half_even :: "real \<Rightarrow> int" where
  "round_half_even y =
     (let f = \<lfloor>y\<rfloor>; d = y - of_int f
      in if d < 1 / 2 then f
         else if 1 / 2 < d then f + 1
         else if even f then f else f + 1)"

definition py_round :: "real \<Rightarrow> nat \<Rightarrow> real" where
  "py_round x n = of_int (round_half_even (x * 10 ^ n)) / 10 ^ n"

section \<open>esp8266/config.py\<close>

record config =
  SERVO_MIN_ANGLE :: int
  SERVO_MAX_ANGLE :: int
  SERVO_CENTER :: int
  SERVO_STEP_MIN :: int
  SERVO_STEP_MAX :: int
  SCAN_STEP :: int
  SCAN_DELAY_MS :: int
  DUTY_MIN :: int
  DUTY_MAX :: int

text \<open>The values shipped in \<open>config.py\<close>; the file is meant to be edited before upload.\<close>

definition shipped_config :: config where
  "shipped_config =
     \<lparr> SERVO_MIN_ANGLE = 0, SERVO_MAX_ANGLE = 180, SERVO_CENTER = 90,
       SERVO_STEP_MIN = 1, SERVO_STEP_MAX = 8,
       SCAN_STEP = 2, SCAN_DELAY_MS = 100,
       DUTY_MIN = 40, DUTY_MAX = 115 \<rparr>"

section \<open>esp8266/main.py: class Servo\<close>

text \<open>
  \<open>pwm_duty\<close> is the last value handed to \<open>self.pwm.duty\<close>; \<open>angle\<close> is \<open>self._angle\<close>.
  The program only ever stores integer angles (the centre, and sums of integer steps).
\<close>

record servo =
  duty_min :: int
  duty_max :: int
  angle :: int
  pwm_duty :: int

definition clamp_angle :: "config \<Rightarrow> int \<Rightarrow> int" where
  "clamp_angle cfg a = max (SERVO_MIN_ANGLE cfg) (min (SERVO_MAX_ANGLE cfg) a)"

definition angle_to_duty :: "config \<Rightarrow> servo \<Rightarrow> int \<Rightarrow> int" where
  "angle_to_duty cfg s a =
     (let a' = clamp_angle cfg a;
          duty = of_int (duty_min s) + of_int (duty_max s - duty_min s) * of_int a' / 180
      in py_int duty)"

definition set_angle :: "config \<Rightarrow> int \<Rightarrow> servo \<Rightarrow> servo" where
  "set_angle cfg a s =
     (let a' = clamp_angle cfg a
      in s\<lparr>angle := a', pwm_duty := angle_to_duty cfg s a'\<rparr>)"

definition get_angle :: "servo \<Rightarrow> int" where
  "get_angle s = angle s"

definition proportional_step :: "config \<Rightarrow> real \<Rightarrow> int" where
  "proportional_step cfg offset_abs =
     (let t = min (offset_abs / 0.4) 1.0;
          step = of_int (SERVO_STEP_MIN cfg)
                 + of_int (SERVO_STEP_MAX cfg - SERVO_STEP_MIN cfg) * t
      in py_int step)"

definition move_proportional :: "config \<Rightarrow> int \<Rightarrow> real \<Rightarrow> servo \<Rightarrow> servo" where
  "move_proportional cfg direction offset_abs s =
     (let step = proportional_step cfg offset_abs;
          new_angle = angle s + direction * step
      in set_angle cfg new_angle s)"

definition center :: "config \<Rightarrow> servo \<Rightarrow> servo" where
  "center cfg s = set_angle cfg (SERVO_CENTER cfg) s"

definition servo_stop :: "servo \<Rightarrow> servo" where
  "servo_stop s = s\<lparr>pwm_duty := 0\<rparr>"

text \<open>
  The module creates the servo with the configured duty range and centres it at once;
  \<open>__init__\<close> stores \<open>SERVO_CENTER\<close> before any PWM value is written.
\<close>

definition servo_init :: "config \<Rightarrow> servo" where
  "servo_init cfg =
     \<lparr> duty_min = DUTY_MIN cfg, duty_max = DUTY_MAX cfg,
       angle = SERVO_CENTER cfg, pwm_duty = 0 \<rparr>"

definition servo_startup :: "config \<Rightarrow> servo" where
  "servo_startup cfg = center cfg (servo_init cfg)"

section \<open>esp8266/main.py: class Scanner\<close>

text \<open>
  \<open>time.ticks_ms()\<close> is an input of the model. \<open>time.ticks_diff\<close> is MicroPython's
  wrap-around difference over the tick period \<open>2 ^ 30\<close>.
\<close>

definition TICKS_PERIOD :: int where
  "TICKS_PERIOD = 2 ^ 30"

definition ticks_diff :: "int \<Rightarrow> int \<Rightarrow> int" where
  "ticks_diff t1 t2 =
     (t1 - t2 + TICKS_PERIOD div 2) mod TICKS_PERIOD - TICKS_PERIOD div 2"

record scanner =
  direction :: int
  last_tick :: int
  active :: bool

definition scanner_init :: scanner where
  "scanner_init = \<lparr> direction = 1, last_tick = 0, active = False \<rparr>"

definition scanner_start :: "int \<Rightarrow> scanner \<Rightarrow> scanner" where
  "scanner_start now sc =
     (if \<not> active sc then sc\<lparr>active := True, last_tick := now\<rparr> else sc)"

definition scanner_stop :: "scanner \<Rightarrow> scanner" where
  "scanner_stop sc = sc\<lparr>active := False\<rparr>"

definition scan_direction :: "config \<Rightarrow> int \<Rightarrow> int \<Rightarrow> int" where
  "scan_direction cfg a d =
     (if SERVO_MAX_ANGLE cfg - SCAN_STEP cfg \<le> a then - 1
      else if a \<le> SERVO_MIN_ANGLE cfg + SCAN_STEP cfg then 1
      else d)"

text \<open>The module-level globals \<open>servo\<close> and \<open>scanner\<close>, and what has been printed.\<close>

datatype json =
    JNull
  | JBool bool
  | JNum real
  | JStr string
  | JArr "json list"
  | JObj "(string \<times> json) list"

datatype log_line =
    LogBadMessage string
  | LogUnknownStatus json
  | LogLeft int json
  | LogRight int json

record world =
  sv :: servo
  sc :: scanner
  console :: "log_line list"

definition world_init :: "config \<Rightarrow> world" where
  "world_init cfg = \<lparr> sv = servo_startup cfg, sc = scanner_init, console = [] \<rparr>"

definition print :: "log_line \<Rightarrow> world \<Rightarrow> world" where
  "print l w = w\<lparr>console := console w @ [l]\<rparr>"

definition tick :: "config \<Rightarrow> int \<Rightarrow> world \<Rightarrow> world" where
  "tick cfg now w =
     (if \<not> active (sc w) then w
      else if ticks_diff now (last_tick (sc w)) < SCAN_DELAY_MS cfg then w
      else
        let w1 = w\<lparr>sc := (sc w)\<lparr>last_tick := now\<rparr>\<rparr>;
            a = get_angle (sv w1);
            w2 = w1\<lparr>sc := (sc w1)\<lparr>direction := scan_direction cfg a (direction (sc w1))\<rparr>\<rparr>
        in w2\<lparr>sv := set_angle cfg (a + direction (sc w2) * SCAN_STEP cfg) (sv w2)\<rparr>)"

section \<open>esp8266/main.py: on_message\<close>

text \<open>
  \<open>json.loads\<close> is a parameter: \<open>None\<close> stands for the \<open>ValueError\<close> it raises on text
  that is not JSON. A decoded object is the list of its members (keys distinct).
  \<open>payload.get(key, default)\<close> exists on a dict only; on any other decoded value the
  attribute lookup raises \<open>AttributeError\<close>. \<open>abs\<close> accepts numbers and booleans and
  raises \<open>TypeError\<close> on everything else.
\<close>

definition dict_get :: "json \<Rightarrow> string \<Rightarrow> json \<Rightarrow> py_error + json" where
  "dict_get payload key dflt =
     (case payload of
        JObj kvs \<Rightarrow> (case map_of kvs key of Some v \<Rightarrow> Inr v | None \<Rightarrow> Inr dflt)
      | _ \<Rightarrow> Inl AttributeError)"

definition py_abs :: "json \<Rightarrow> py_error + real" where
  "py_abs v =
     (case v of
        JNum x \<Rightarrow> Inr \<bar>x\<bar>
      | JBool b \<Rightarrow> Inr (if b then 1 else 0)
      | _ \<Rightarrow> Inl TypeError)"

text \<open>
  The handler returns the globals as it leaves them, and the exception that escapes it,
  if any. Only \<open>ValueError\<close> and \<open>KeyError\<close> are caught by its \<open>try\<close>.
\<close>

definition on_message ::
  "config \<Rightarrow> (string \<Rightarrow> json option) \<Rightarrow> int \<Rightarrow> string \<Rightarrow> string \<Rightarrow> world
     \<Rightarrow> world \<times> py_error option" where
  "on_message cfg json_loads now topic msg w =
     (case json_loads msg of
        None \<Rightarrow> (print (LogBadMessage msg) w, None)
      | Some payload \<Rightarrow>
        (case dict_get payload ''status'' (JStr []) of
           Inl e \<Rightarrow> (w, Some e)
         | Inr status \<Rightarrow>
           (case dict_get payload ''offset'' (JNum 0.0) of
              Inl e \<Rightarrow> (w, Some e)
            | Inr offset \<Rightarrow>
              if status = JStr ''MOVE_LEFT'' then
                let w1 = w\<lparr>sc := scanner_stop (sc w)\<rparr>
                in (case py_abs offset of
                      Inl e \<Rightarrow> (w1, Some e)
                    | Inr offset_abs \<Rightarrow>
                        let w2 = w1\<lparr>sv := move_proportional cfg (- 1) offset_abs (sv w1)\<rparr>
                        in (print (LogLeft (get_angle (sv w2)) offset) w2, None))
              else if status = JStr ''MOVE_RIGHT'' then
                let w1 = w\<lparr>sc := scanner_stop (sc w)\<rparr>
                in (case py_abs offset of
                      Inl e \<Rightarrow> (w1, Some e)
                    | Inr offset_abs \<Rightarrow>
                        let w2 = w1\<lparr>sv := move_proportional cfg 1 offset_abs (sv w1)\<rparr>
                        in (print (LogRight (get_angle (sv w2)) offset) w2, None))
              else if status = JStr ''CENTERED'' then
                (w\<lparr>sc := scanner_stop (sc w)\<rparr>, None)
              else if status = JStr ''NO_FACE'' then
                (w\<lparr>sc := scanner_start now (sc w)\<rparr>, None)
              else (print (LogUnknownStatus status) w, None))))"

section \<open>esp8266/main.py: the message loop of run\<close>

text \<open>
  One pass of the inner \<open>while True\<close>: \<open>client.check_msg()\<close> delivers at most one message
  to \<open>on_message\<close> or fails with a transport error, then \<open>scanner.tick(servo)\<close> runs.
  An exception leaves the inner loop before the tick; \<open>run\<close> catches it, waits,
  reconnects and enters the loop again with the same globals.
\<close>

datatype poll = NoMessage | Message string string | TransportError

record loop_input =
  polled :: poll
  t_msg :: int
  t_tick :: int

definition iteration ::
  "config \<Rightarrow> (string \<Rightarrow> json option) \<Rightarrow> loop_input \<Rightarrow> world \<Rightarrow> world" where
  "iteration cfg json_loads i w =
     (case polled i of
        NoMessage \<Rightarrow> tick cfg (t_tick i) w
      | TransportError \<Rightarrow> w
      | Message topic msg \<Rightarrow>
          (case on_message cfg json_loads (t_msg i) topic msg w of
             (w', Some e) \<Rightarrow> w'
           | (w', None) \<Rightarrow> tick cfg (t_tick i) w'))"

fun run_loop ::
  "config \<Rightarrow> (string \<Rightarrow> json option) \<Rightarrow> loop_input list \<Rightarrow> world \<Rightarrow> world" where
  "run_loop cfg json_loads [] w = w"
| "run_loop cfg json_loads (i # is) w =
     run_loop cfg json_loads is (iteration cfg json_loads i w)"

section \<open>pc_vision/movement_detector.py\<close>

datatype movement = MOVE_LEFT | MOVE_RIGHT | CENTERED | NO_FACE

text \<open>
  The frame result is a dict read with \<open>get\<close>: a missing \<open>state\<close> reads as
  \<open>searching\<close>, a missing \<open>face_box\<close> as \<open>None\<close>, a missing \<open>lock_confidence\<close> as 0.
\<close>

record frame_result =
  state :: "string option"
  face_box :: "(real \<times> real \<times> real \<times> real) option"
  lock_confidence :: "real option"

record event =
  status :: movement
  confidence :: real
  offset :: real
  timestamp :: int

record detector =
  dead_zone_ratio :: real
  hysteresis_ratio :: real
  prev_state :: "movement option"
  last_publish_time :: real

definition detector_init :: "real \<Rightarrow> real \<Rightarrow> detector" where
  "detector_init dz hy =
     \<lparr> dead_zone_ratio = dz, hysteresis_ratio = hy,
       prev_state = None, last_publish_time = 0.0 \<rparr>"

definition threshold :: "detector \<Rightarrow> real" where
  "threshold d =
     (if prev_state d = Some CENTERED then dead_zone_ratio d + hysteresis_ratio d
      else dead_zone_ratio d)"

text \<open>
  The first half of \<open>compute\<close>: the movement, the confidence and the offset of one frame.
  Dividing by a frame width of 0 raises.
\<close>

definition classify ::
  "detector \<Rightarrow> frame_result \<Rightarrow> int \<Rightarrow> py_error + (movement \<times> real \<times> real)" where
  "classify d fr frame_width =
     (let st = (case state fr of Some s \<Rightarrow> s | None \<Rightarrow> ''searching'');
          conf = (case lock_confidence fr of Some c \<Rightarrow> c | None \<Rightarrow> 0.0)
      in if st = ''searching'' \<or> face_box fr = None then Inr (NO_FACE, 0.0, 0.0)
         else
           case the (face_box fr) of (x1, y1, x2, y2) \<Rightarrow>
             let face_cx = (x1 + x2) / 2.0;
                 frame_cx = of_int frame_width / 2.0
             in if frame_width = 0 then Inl ZeroDivisionError
                else
                  let off = (face_cx - frame_cx) / of_int frame_width
                  in if \<bar>off\<bar> \<le> threshold d then Inr (CENTERED, conf, off)
                     else if off < 0 then Inr (MOVE_LEFT, conf, off)
                     else Inr (MOVE_RIGHT, conf, off))"

text \<open>
  \<open>compute\<close> with the clock reading \<open>now\<close> and \<open>MIN_PUBLISH_INTERVAL\<close> (imported from the
  vision configuration) as parameters. It returns what it returns and the detector as
  it leaves it; an exception is raised before anything is stored.
\<close>

definition compute ::
  "real \<Rightarrow> real \<Rightarrow> detector \<Rightarrow> frame_result \<Rightarrow> int
     \<Rightarrow> py_error + (event option \<times> detector)" where
  "compute MIN_PUBLISH_INTERVAL now d fr frame_width =
     (case classify d fr frame_width of
        Inl e \<Rightarrow> Inl e
      | Inr (mv, conf, off) \<Rightarrow>
          let state_changed = (Some mv \<noteq> prev_state d);
              interval_elapsed = (MIN_PUBLISH_INTERVAL \<le> now - last_publish_time d)
          in if \<not> state_changed \<and> \<not> interval_elapsed then Inr (None, d)
             else
               Inr (Some \<lparr> status = mv, confidence = py_round conf 3,
                            offset = py_round off 4, timestamp = py_int now \<rparr>,
                    d\<lparr>prev_state := Some mv, last_publish_time := now\<rparr>))"

section \<open>Notions used to state the properties\<close>

text \<open>
  A call sequence on the globals: the three motion methods of the servo and the
  scanner's tick, with arbitrary arguments.
\<close>

datatype call = SetAngle int | MoveProportional int real | Center | ScanTick int

fun apply_call :: "config \<Rightarrow> call \<Rightarrow> world \<Rightarrow> world" where
  "apply_call cfg (SetAngle a) w = w\<lparr>sv := set_angle cfg a (sv w)\<rparr>"
| "apply_call cfg (MoveProportional dir off) w = w\<lparr>sv := move_proportional cfg dir off (sv w)\<rparr>"
| "apply_call cfg Center w = w\<lparr>sv := center cfg (sv w)\<rparr>"
| "apply_call cfg (ScanTick now) w = tick cfg now w"

fun apply_calls :: "config \<Rightarrow> call list \<Rightarrow> world \<Rightarrow> world" where
  "apply_calls cfg [] w = w"
| "apply_calls cfg (c # cs) w = apply_calls cfg cs (apply_call cfg c w)"

definition in_bounds :: "config \<Rightarrow> int \<Rightarrow> bool" where
  "in_bounds cfg a = (SERVO_MIN_ANGLE cfg \<le> a \<and> a \<le> SERVO_MAX_ANGLE cfg)"

text \<open>
  The duty as the specification words it: the interpolation over the configured span
  \<open>angle_max - angle_min\<close>. Python raises on a span of 0.
\<close>

definition spec_duty :: "config \<Rightarrow> servo \<Rightarrow> int \<Rightarrow> py_error + int" where
  "spec_duty cfg s a =
     (if SERVO_MAX_ANGLE cfg - SERVO_MIN_ANGLE cfg = 0 then Inl ZeroDivisionError
      else Inr (py_int (of_int (duty_min s)
                  + of_int (duty_max s - duty_min s) * of_int a
                    / of_int (SERVO_MAX_ANGLE cfg - SERVO_MIN_ANGLE cfg))))"

text \<open>
  The status a payload carries, as \<open>on_message\<close> reads it: defined for a decoded JSON
  object only, the empty string when the member is missing.
\<close>

definition msg_status :: "(string \<Rightarrow> json option) \<Rightarrow> string \<Rightarrow> json option" where
  "msg_status json_loads msg =
     (case json_loads msg of
        Some (JObj kvs) \<Rightarrow> (case map_of kvs ''status'' of Some v \<Rightarrow> Some v | None \<Rightarrow> Some (JStr []))
      | _ \<Rightarrow> None)"

definition is_motion_command :: "(string \<Rightarrow> json option) \<Rightarrow> string \<Rightarrow> bool" where
  "is_motion_command json_loads msg =
     (msg_status json_loads msg = Some (JStr ''MOVE_LEFT'')
      \<or> msg_status json_loads msg = Some (JStr ''MOVE_RIGHT'')
      \<or> msg_status json_loads msg = Some (JStr ''CENTERED''))"

definition is_no_face :: "(string \<Rightarrow> json option) \<Rightarrow> loop_input \<Rightarrow> bool" where
  "is_no_face json_loads i =
     (case polled i of
        Message topic msg \<Rightarrow> msg_status json_loads msg = Some (JStr ''NO_FACE'')
      | _ \<Rightarrow> False)"

section \<open>The servo: step, limits, duty\<close>

lemma py_int_mono: "x \<le> y \<Longrightarrow> py_int x \<le> py_int y"
proof -
  assume xy: "x \<le> y"
  have fc: "\<lfloor>z\<rfloor> \<le> \<lceil>z\<rceil>" for z :: real by (rule floor_le_ceiling)
  show ?thesis
  proof (cases "0 \<le> x")
    case True
    with xy show ?thesis by (simp add: py_int_def floor_mono)
  next
    case False
    show ?thesis
    proof (cases "0 \<le> y")
      case True
      have "\<lceil>x\<rceil> \<le> 0" using False by (simp add: ceiling_le_iff)
      moreover have "0 \<le> \<lfloor>y\<rfloor>" using True by simp
      moreover have "py_int x = \<lceil>x\<rceil>" "py_int y = \<lfloor>y\<rfloor>"
        using False True by (simp_all add: py_int_def)
      ultimately show ?thesis by linarith
    next
      case False
      with xy \<open>\<not> 0 \<le> x\<close> show ?thesis by (simp add: py_int_def ceiling_mono)
    qed
  qed
qed

lemma py_int_of_int: "py_int (of_int n) = n"
  by (simp add: py_int_def)

lemma clamp_angle_bounds:
  "SERVO_MIN_ANGLE cfg \<le> SERVO_MAX_ANGLE cfg \<Longrightarrow> in_bounds cfg (clamp_angle cfg a)"
  by (simp add: in_bounds_def clamp_angle_def)

lemma clamp_angle_id: "in_bounds cfg a \<Longrightarrow> clamp_angle cfg a = a"
  by (simp add: in_bounds_def clamp_angle_def)

lemma angle_set_angle: "angle (set_angle cfg a s) = clamp_angle cfg a"
  by (simp add: set_angle_def Let_def)

text \<open>
  Claim C6. With \<open>SERVO_STEP_MIN \<le> SERVO_STEP_MAX\<close>, the step that \<open>move_proportional\<close>
  computes does not decrease when \<open>offset_abs\<close> grows (for all reals, so also on
  \<open>[0, 0.5]\<close>), and it is \<open>SERVO_STEP_MAX\<close> for every \<open>offset_abs \<ge> 0.4\<close>.
\<close>
theorem step_mono:
  assumes "SERVO_STEP_MIN cfg \<le> SERVO_STEP_MAX cfg"
  shows "(x \<le> y \<longrightarrow> proportional_step cfg x \<le> proportional_step cfg y)
       \<and> (0.4 \<le> x \<longrightarrow> proportional_step cfg x = SERVO_STEP_MAX cfg)"
proof (intro conjI impI)
  assume xy: "x \<le> y"
  have t: "min (x / 0.4) 1.0 \<le> min (y / 0.4) (1.0::real)"
    using xy by (simp add: min_le_iff_disj divide_right_mono)
  have c: "(0::real) \<le> of_int (SERVO_STEP_MAX cfg - SERVO_STEP_MIN cfg)"
    using assms by simp
  show "proportional_step cfg x \<le> proportional_step cfg y"
    unfolding proportional_step_def Let_def
    by (intro py_int_mono add_left_mono mult_left_mono t c)
next
  assume "0.4 \<le> x"
  then have "min (x / 0.4) (1.0::real) = 1" by (simp add: min_def)
  then have "proportional_step cfg x = py_int (of_int (SERVO_STEP_MAX cfg))"
    unfolding proportional_step_def Let_def by simp
  then show "proportional_step cfg x = SERVO_STEP_MAX cfg"
    by (simp only: py_int_of_int)
qed

theorem step_mono_witness:
  "SERVO_STEP_MIN shipped_config \<le> SERVO_STEP_MAX shipped_config
   \<and> (0.1::real) \<le> 0.3 \<and> (0.4::real) \<le> 0.45
   \<and> proportional_step shipped_config 0.1 \<le> proportional_step shipped_config 0.3
   \<and> proportional_step shipped_config 0.45 = 8"
proof -
  have h: "SERVO_STEP_MIN shipped_config \<le> SERVO_STEP_MAX shipped_config"
    by (simp add: shipped_config_def)
  have x: "(0.1::real) \<le> 0.3" and y: "(0.4::real) \<le> 0.45" by simp_all
  from step_mono [OF h, of "0.1" "0.3"] x
  have m: "proportional_step shipped_config 0.1 \<le> proportional_step shipped_config 0.3"
    by blast
  from step_mono [OF h, of "0.45" "0.45"] y
  have "proportional_step shipped_config 0.45 = SERVO_STEP_MAX shipped_config"
    by blast
  then have "proportional_step shipped_config 0.45 = 8"
    by (simp add: shipped_config_def)
  with h x y m show ?thesis by blast
qed

lemma tick_angle_bounds:
  "SERVO_MIN_ANGLE cfg \<le> SERVO_MAX_ANGLE cfg \<Longrightarrow> in_bounds cfg (angle (sv w))
   \<Longrightarrow> in_bounds cfg (angle (sv (tick cfg now w)))"
  by (simp add: tick_def Let_def angle_set_angle clamp_angle_bounds)

lemma apply_call_bounds:
  "SERVO_MIN_ANGLE cfg \<le> SERVO_MAX_ANGLE cfg \<Longrightarrow> in_bounds cfg (angle (sv w))
   \<Longrightarrow> in_bounds cfg (angle (sv (apply_call cfg c w)))"
  by (cases c)
     (simp_all add: move_proportional_def center_def Let_def angle_set_angle
        clamp_angle_bounds tick_angle_bounds)

lemma apply_calls_bounds:
  "SERVO_MIN_ANGLE cfg \<le> SERVO_MAX_ANGLE cfg \<Longrightarrow> in_bounds cfg (angle (sv w))
   \<Longrightarrow> in_bounds cfg (angle (sv (apply_calls cfg cs w)))"
  by (induction cs arbitrary: w) (simp_all add: apply_call_bounds)

lemma startup_bounds:
  "SERVO_MIN_ANGLE cfg \<le> SERVO_MAX_ANGLE cfg \<Longrightarrow> in_bounds cfg (angle (servo_startup cfg))"
  by (simp add: servo_startup_def center_def angle_set_angle clamp_angle_bounds)

text \<open>
  Claim C3. With \<open>SERVO_MIN_ANGLE \<le> SERVO_MAX_ANGLE\<close>, after the start-up centring and
  any finite sequence of \<open>set_angle\<close>, \<open>move_proportional\<close>, \<open>center\<close> and scanner tick
  calls with arbitrary arguments, whatever the scanner's state, the stored angle lies in
  \<open>[SERVO_MIN_ANGLE, SERVO_MAX_ANGLE]\<close>.
\<close>
theorem angle_invariant:
  assumes "SERVO_MIN_ANGLE cfg \<le> SERVO_MAX_ANGLE cfg"
  shows "in_bounds cfg (angle (sv (apply_calls cfg cs \<lparr>sv = servo_startup cfg, sc = s0, console = out\<rparr>)))"
  using assms by (simp add: apply_calls_bounds startup_bounds)

theorem angle_invariant_witness:
  "SERVO_MIN_ANGLE shipped_config \<le> SERVO_MAX_ANGLE shipped_config
   \<and> in_bounds shipped_config (angle (sv (apply_calls shipped_config
      [SetAngle 500, MoveProportional 1 0.3, ScanTick 200, Center, MoveProportional (- 40) 7, ScanTick 600]
      \<lparr>sv = servo_startup shipped_config, sc = scanner_init\<lparr>active := True\<rparr>, console = []\<rparr>)))"
proof -
  have h: "SERVO_MIN_ANGLE shipped_config \<le> SERVO_MAX_ANGLE shipped_config"
    by (simp add: shipped_config_def)
  show ?thesis using h by (intro conjI angle_invariant [OF h])
qed

text \<open>
  Claim C7. On a tick of an active scanner whose interval has elapsed, with a
  non-negative scan step and limits more than two steps apart: the direction becomes
  \<open>-1\<close> when the angle is at least \<open>SERVO_MAX_ANGLE - SCAN_STEP\<close>, \<open>+1\<close> when it is at
  most \<open>SERVO_MIN_ANGLE + SCAN_STEP\<close>, and stays as it was in between; the move uses
  the direction chosen by that check; the new angle is within the limits, and from an
  angle within the limits with a direction of \<open>\<plusminus>1\<close> the target itself is, so nothing
  is cut off by the clamp.
\<close>
theorem scan_tick:
  assumes act: "active (sc w)"
    and due: "\<not> ticks_diff now (last_tick (sc w)) < SCAN_DELAY_MS cfg"
    and step: "0 \<le> SCAN_STEP cfg"
    and room: "SERVO_MIN_ANGLE cfg + SCAN_STEP cfg < SERVO_MAX_ANGLE cfg - SCAN_STEP cfg"
  shows "(let a = angle (sv w); d' = direction (sc (tick cfg now w)); a' = angle (sv (tick cfg now w))
          in (SERVO_MAX_ANGLE cfg - SCAN_STEP cfg \<le> a \<longrightarrow> d' = - 1)
           \<and> (a \<le> SERVO_MIN_ANGLE cfg + SCAN_STEP cfg \<longrightarrow> d' = 1)
           \<and> (SERVO_MIN_ANGLE cfg + SCAN_STEP cfg < a \<and> a < SERVO_MAX_ANGLE cfg - SCAN_STEP cfg
                \<longrightarrow> d' = direction (sc w))
           \<and> a' = clamp_angle cfg (a + d' * SCAN_STEP cfg)
           \<and> in_bounds cfg a'
           \<and> (in_bounds cfg a \<and> \<bar>direction (sc w)\<bar> = 1 \<longrightarrow> a' = a + d' * SCAN_STEP cfg))"
proof -
  let ?a = "angle (sv w)"
  let ?d = "scan_direction cfg ?a (direction (sc w))"
  have d': "direction (sc (tick cfg now w)) = ?d"
    using act due by (simp add: tick_def Let_def get_angle_def)
  have a': "angle (sv (tick cfg now w)) = clamp_angle cfg (?a + ?d * SCAN_STEP cfg)"
    using act due by (simp add: tick_def Let_def get_angle_def angle_set_angle)
  have le: "SERVO_MIN_ANGLE cfg \<le> SERVO_MAX_ANGLE cfg" using step room by linarith
  have b: "in_bounds cfg (clamp_angle cfg (?a + ?d * SCAN_STEP cfg))"
    by (rule clamp_angle_bounds [OF le])
  have c1: "SERVO_MAX_ANGLE cfg - SCAN_STEP cfg \<le> ?a \<Longrightarrow> ?d = - 1"
    by (simp add: scan_direction_def)
  have c2: "?a \<le> SERVO_MIN_ANGLE cfg + SCAN_STEP cfg \<Longrightarrow> ?d = 1"
    using room by (simp add: scan_direction_def)
  have c3: "SERVO_MIN_ANGLE cfg + SCAN_STEP cfg < ?a \<Longrightarrow> ?a < SERVO_MAX_ANGLE cfg - SCAN_STEP cfg
              \<Longrightarrow> ?d = direction (sc w)"
    by (simp add: scan_direction_def)
  have c4: "in_bounds cfg (?a + ?d * SCAN_STEP cfg)"
    if inb: "in_bounds cfg ?a" and dir: "\<bar>direction (sc w)\<bar> = 1"
  proof -
    consider "SERVO_MAX_ANGLE cfg - SCAN_STEP cfg \<le> ?a"
      | "?a \<le> SERVO_MIN_ANGLE cfg + SCAN_STEP cfg"
      | "SERVO_MIN_ANGLE cfg + SCAN_STEP cfg < ?a" "?a < SERVO_MAX_ANGLE cfg - SCAN_STEP cfg"
      by linarith
    then show ?thesis
    proof cases
      case 1
      with c1 inb step room show ?thesis by (simp add: in_bounds_def)
    next
      case 2
      with c2 inb step room show ?thesis by (simp add: in_bounds_def)
    next
      case 3
      from dir have "direction (sc w) = 1 \<or> direction (sc w) = - 1" by linarith
      with 3 c3 inb step room show ?thesis by (auto simp: in_bounds_def)
    qed
  qed
  show ?thesis
    unfolding Let_def d' a'
    using b c1 c2 c3 c4 by (simp add: clamp_angle_id)
qed

theorem scan_tick_witness:
  "(let w = \<lparr>sv = set_angle shipped_config 179 (servo_init shipped_config),
             sc = \<lparr>direction = 1, last_tick = 0, active = True\<rparr>, console = []\<rparr>;
        w' = tick shipped_config 150 w
    in active (sc w) \<and> \<not> ticks_diff 150 (last_tick (sc w)) < SCAN_DELAY_MS shipped_config
     \<and> 0 \<le> SCAN_STEP shipped_config
     \<and> SERVO_MIN_ANGLE shipped_config + SCAN_STEP shipped_config
         < SERVO_MAX_ANGLE shipped_config - SCAN_STEP shipped_config
     \<and> SERVO_MAX_ANGLE shipped_config - SCAN_STEP shipped_config \<le> angle (sv w)
     \<and> in_bounds shipped_config (angle (sv w)) \<and> \<bar>direction (sc w)\<bar> = 1
     \<and> direction (sc w') = - 1 \<and> angle (sv w') = 177)"
proof -
  let ?w = "\<lparr>sv = set_angle shipped_config 179 (servo_init shipped_config),
             sc = \<lparr>direction = 1, last_tick = 0, active = True\<rparr>, console = []\<rparr>"
  have a: "angle (sv ?w) = 179"
    by (simp add: angle_set_angle clamp_angle_def shipped_config_def)
  have h1: "active (sc ?w)" by simp
  have h2: "\<not> ticks_diff 150 (last_tick (sc ?w)) < SCAN_DELAY_MS shipped_config"
    by (simp add: ticks_diff_def TICKS_PERIOD_def shipped_config_def)
  have h3: "0 \<le> SCAN_STEP shipped_config" by (simp add: shipped_config_def)
  have h4: "SERVO_MIN_ANGLE shipped_config + SCAN_STEP shipped_config
         < SERVO_MAX_ANGLE shipped_config - SCAN_STEP shipped_config"
    by (simp add: shipped_config_def)
  have h5: "SERVO_MAX_ANGLE shipped_config - SCAN_STEP shipped_config \<le> angle (sv ?w)"
    unfolding a by (simp add: shipped_config_def)
  have h6: "in_bounds shipped_config (angle (sv ?w))"
    unfolding a by (simp add: in_bounds_def shipped_config_def)
  have h7: "\<bar>direction (sc ?w)\<bar> = 1" by simp
  from scan_tick [OF h1 h2 h3 h4] h5 h6 h7
  have "direction (sc (tick shipped_config 150 ?w)) = - 1"
    and "angle (sv (tick shipped_config 150 ?w))
          = angle (sv ?w) + direction (sc (tick shipped_config 150 ?w)) * SCAN_STEP shipped_config"
    unfolding Let_def by blast+
  then have "direction (sc (tick shipped_config 150 ?w)) = - 1"
    and "angle (sv (tick shipped_config 150 ?w)) = 177"
    using a by (simp_all add: shipped_config_def)
  with h1 h2 h3 h4 h5 h6 h7 show ?thesis unfolding Let_def by blast
qed

text \<open>
  Claim C8, amended. \<open>set_angle\<close> clamps the angle to the configured limits, stores the
  clamped value and writes the duty \<open>duty_min + (duty_max - duty_min) * angle / 180\<close>,
  truncated: the divisor is the constant 180, not the configured span. The two agree
  when the span \<open>SERVO_MAX_ANGLE - SERVO_MIN_ANGLE\<close> is 180, as in the shipped
  configuration.
\<close>
theorem set_angle_duty:
  "set_angle cfg a s =
     s\<lparr>angle := clamp_angle cfg a,
       pwm_duty := py_int (of_int (duty_min s)
                     + of_int (duty_max s - duty_min s) * of_int (clamp_angle cfg a) / 180)\<rparr>
   \<and> (SERVO_MAX_ANGLE cfg - SERVO_MIN_ANGLE cfg = 180
        \<longrightarrow> spec_duty cfg s (clamp_angle cfg a) = Inr (pwm_duty (set_angle cfg a s)))"
proof -
  have idem: "clamp_angle cfg (clamp_angle cfg a) = clamp_angle cfg a"
    by (simp add: clamp_angle_def)
  show ?thesis
    by (simp add: set_angle_def angle_to_duty_def spec_duty_def Let_def idem)
qed

theorem set_angle_duty_witness:
  "SERVO_MAX_ANGLE shipped_config - SERVO_MIN_ANGLE shipped_config = 180
   \<and> spec_duty shipped_config (servo_init shipped_config) (clamp_angle shipped_config 200)
       = Inr (pwm_duty (set_angle shipped_config 200 (servo_init shipped_config)))
   \<and> pwm_duty (set_angle shipped_config 200 (servo_init shipped_config)) = 115"
proof -
  have h: "SERVO_MAX_ANGLE shipped_config - SERVO_MIN_ANGLE shipped_config = 180"
    by (simp add: shipped_config_def)
  have d: "pwm_duty (set_angle shipped_config 200 (servo_init shipped_config)) = 115"
    by (simp add: set_angle_def angle_to_duty_def clamp_angle_def servo_init_def py_int_def
          shipped_config_def Let_def)
  from set_angle_duty [of shipped_config 200 "servo_init shipped_config"] h d
  show ?thesis by blast
qed

text \<open>
  With the upper limit configured as 90 the span is 90: at 90 degrees the
  specification's formula gives the duty 115, the code writes 77.
\<close>
theorem set_angle_duty_span_counterexample:
  "spec_duty (shipped_config\<lparr>SERVO_MAX_ANGLE := 90\<rparr>)
      (servo_init (shipped_config\<lparr>SERVO_MAX_ANGLE := 90\<rparr>))
      (clamp_angle (shipped_config\<lparr>SERVO_MAX_ANGLE := 90\<rparr>) 90) = Inr 115
   \<and> pwm_duty (set_angle (shipped_config\<lparr>SERVO_MAX_ANGLE := 90\<rparr>) 90
        (servo_init (shipped_config\<lparr>SERVO_MAX_ANGLE := 90\<rparr>))) = 77
   \<and> spec_duty (shipped_config\<lparr>SERVO_MAX_ANGLE := 90\<rparr>)
        (servo_init (shipped_config\<lparr>SERVO_MAX_ANGLE := 90\<rparr>))
        (clamp_angle (shipped_config\<lparr>SERVO_MAX_ANGLE := 90\<rparr>) 90)
      \<noteq> Inr (pwm_duty (set_angle (shipped_config\<lparr>SERVO_MAX_ANGLE := 90\<rparr>) 90
               (servo_init (shipped_config\<lparr>SERVO_MAX_ANGLE := 90\<rparr>))))"
  by (simp add: set_angle_def angle_to_duty_def spec_duty_def clamp_angle_def servo_init_def
        py_int_def shipped_config_def Let_def)

section \<open>The classifier\<close>

lemma py_round_zero: "py_round 0 n = 0"
  by (simp add: py_round_def round_half_even_def)

lemma classify_total:
  "frame_width \<noteq> 0 \<Longrightarrow> \<exists>mv conf off. classify d fr frame_width = Inr (mv, conf, off)"
  by (simp add: classify_def Let_def split: prod.split)

lemma compute_gate:
  assumes "classify d fr frame_width = Inr (mv, conf, off)"
  shows "compute I now d fr frame_width =
           (if Some mv = prev_state d \<and> now - last_publish_time d < I then Inr (None, d)
            else Inr (Some \<lparr>status = mv, confidence = py_round conf 3,
                             offset = py_round off 4, timestamp = py_int now\<rparr>,
                      d\<lparr>prev_state := Some mv, last_publish_time := now\<rparr>))"
  using assms by (auto simp: compute_def Let_def)

text \<open>
  Claim C1. For a frame width other than 0, \<open>compute\<close> classifies the frame and then:
  if the movement equals the last emitted status and less than
  \<open>MIN_PUBLISH_INTERVAL\<close> has passed since the last emission, it returns nothing and
  leaves the detector as it was; in every other case it returns an event with that
  movement and stores the movement and \<open>now\<close> as last emitted status and time.
\<close>
theorem flood_gate:
  assumes "frame_width \<noteq> 0"
  shows "\<exists>mv conf off. classify d fr frame_width = Inr (mv, conf, off)
     \<and> (if Some mv = prev_state d \<and> now - last_publish_time d < I
        then compute I now d fr frame_width = Inr (None, d)
        else \<exists>ev. compute I now d fr frame_width
                    = Inr (Some ev, d\<lparr>prev_state := Some mv, last_publish_time := now\<rparr>)
                 \<and> status ev = mv)"
proof -
  from classify_total [OF assms] obtain mv conf off
    where c: "classify d fr frame_width = Inr (mv, conf, off)" by blast
  show ?thesis
    using c by (intro exI [of _ mv] exI [of _ conf] exI [of _ off]) (simp add: compute_gate [OF c])
qed

theorem flood_gate_witness:
  "(640::int) \<noteq> 0
   \<and> compute 1 100.2
       \<lparr>dead_zone_ratio = 0.1, hysteresis_ratio = 0.05, prev_state = Some MOVE_LEFT,
         last_publish_time = 100\<rparr>
       \<lparr>state = Some ''tracking'', face_box = Some (200, 0, 248, 10), lock_confidence = Some 0.9\<rparr> 640
     = Inr (None, \<lparr>dead_zone_ratio = 0.1, hysteresis_ratio = 0.05, prev_state = Some MOVE_LEFT,
                   last_publish_time = 100\<rparr>)"
proof -
  let ?d = "\<lparr>dead_zone_ratio = 0.1, hysteresis_ratio = 0.05, prev_state = Some MOVE_LEFT,
         last_publish_time = 100\<rparr> :: detector"
  let ?fr = "\<lparr>state = Some ''tracking'', face_box = Some (200, 0, 248, 10), lock_confidence = Some 0.9\<rparr>"
  have c: "classify ?d ?fr 640 = Inr (MOVE_LEFT, 0.9, - 0.15)"
    by (simp add: classify_def threshold_def Let_def)
  have h: "(640::int) \<noteq> 0" by simp
  from flood_gate [OF h, of ?d ?fr "100.2" 1] c
  have "compute 1 100.2 ?d ?fr 640 = Inr (None, ?d)" by simp
  with h show ?thesis by blast
qed

text \<open>
  Claim C2. For a frame that is not \<open>searching\<close> and has a bounding box, with a frame
  width other than 0 and non-negative dead zone and hysteresis: the threshold is
  \<open>dead_zone + hysteresis\<close> when the last emitted status is \<open>CENTERED\<close> and \<open>dead_zone\<close>
  otherwise, and the movement is \<open>CENTERED\<close> iff \<open>|offset| \<le> threshold\<close>, \<open>MOVE_LEFT\<close> iff
  \<open>offset < - threshold\<close>, \<open>MOVE_RIGHT\<close> iff \<open>offset > threshold\<close>.
\<close>
theorem hysteresis_threshold:
  assumes "state fr = Some s" and "s \<noteq> ''searching''"
    and "face_box fr = Some (x1, y1, x2, y2)" and "frame_width \<noteq> 0"
    and "0 \<le> dead_zone_ratio d" and "0 \<le> hysteresis_ratio d"
  shows "(let off = ((x1 + x2) / 2 - of_int frame_width / 2) / of_int frame_width;
              thr = (if prev_state d = Some CENTERED
                     then dead_zone_ratio d + hysteresis_ratio d else dead_zone_ratio d)
          in \<exists>mv conf. classify d fr frame_width = Inr (mv, conf, off)
               \<and> (mv = CENTERED \<longleftrightarrow> \<bar>off\<bar> \<le> thr)
               \<and> (mv = MOVE_LEFT \<longleftrightarrow> off < - thr)
               \<and> (mv = MOVE_RIGHT \<longleftrightarrow> thr < off))"
proof -
  define off where "off = ((x1 + x2) / 2 - of_int frame_width / 2) / of_int frame_width"
  have thr: "0 \<le> threshold d" using assms(5,6) by (simp add: threshold_def)
  have c: "classify d fr frame_width =
             (if \<bar>off\<bar> \<le> threshold d
              then Inr (CENTERED, case lock_confidence fr of Some c \<Rightarrow> c | None \<Rightarrow> 0, off)
              else if off < 0
              then Inr (MOVE_LEFT, case lock_confidence fr of Some c \<Rightarrow> c | None \<Rightarrow> 0, off)
              else Inr (MOVE_RIGHT, case lock_confidence fr of Some c \<Rightarrow> c | None \<Rightarrow> 0, off))"
    using assms(1-4) unfolding off_def classify_def Let_def by (simp split: option.split)
  have "\<exists>mv conf. classify d fr frame_width = Inr (mv, conf, off)
               \<and> (mv = CENTERED \<longleftrightarrow> \<bar>off\<bar> \<le> threshold d)
               \<and> (mv = MOVE_LEFT \<longleftrightarrow> off < - threshold d)
               \<and> (mv = MOVE_RIGHT \<longleftrightarrow> threshold d < off)"
    unfolding c using thr by auto
  then show ?thesis
    unfolding Let_def off_def threshold_def .
qed

theorem hysteresis_threshold_witness:
  "(let d = \<lparr>dead_zone_ratio = 0.1, hysteresis_ratio = 0.05, prev_state = Some CENTERED,
              last_publish_time = 0\<rparr>;
        fr = \<lparr>state = Some ''tracking'', face_box = Some (200, 0, 248, 10),
               lock_confidence = Some 0.9\<rparr>
    in ''tracking'' \<noteq> ''searching'' \<and> (640::int) \<noteq> 0
       \<and> 0 \<le> dead_zone_ratio d \<and> 0 \<le> hysteresis_ratio d
       \<and> (\<exists>conf. classify d fr 640 = Inr (CENTERED, conf, - 0.15)))"
proof -
  let ?d = "\<lparr>dead_zone_ratio = 0.1, hysteresis_ratio = 0.05, prev_state = Some CENTERED,
              last_publish_time = 0\<rparr> :: detector"
  let ?fr = "\<lparr>state = Some ''tracking'', face_box = Some (200, 0, 248, 10),
               lock_confidence = Some 0.9\<rparr>"
  have h1: "state ?fr = Some ''tracking''" by simp
  have h2: "''tracking'' \<noteq> ''searching''" by simp
  have h3: "face_box ?fr = Some (200, 0, 248, 10)" by simp
  have h4: "(640::int) \<noteq> 0" by simp
  have h5: "0 \<le> dead_zone_ratio ?d" by simp
  have h6: "0 \<le> hysteresis_ratio ?d" by simp
  from hysteresis_threshold [OF h1 h2 h3 h4 h5 h6]
  have "\<exists>conf. classify ?d ?fr 640 = Inr (CENTERED, conf, - 0.15)"
    unfolding Let_def by simp
  with h2 h4 h5 h6 show ?thesis unfolding Let_def by blast
qed

text \<open>
  Claim C9. For a frame whose state is \<open>searching\<close> (or missing, which reads as
  \<open>searching\<close>) or that has no bounding box, the classification is \<open>NO_FACE\<close> with
  confidence 0 and offset 0 whatever confidence the frame reports, for every frame
  width; \<open>compute\<close> either suppresses it or emits exactly that event.
\<close>
theorem no_face:
  assumes "state fr = None \<or> state fr = Some ''searching'' \<or> face_box fr = None"
  shows "classify d fr frame_width = Inr (NO_FACE, 0, 0)
     \<and> (compute I now d fr frame_width = Inr (None, d)
        \<or> compute I now d fr frame_width
            = Inr (Some \<lparr>status = NO_FACE, confidence = 0, offset = 0, timestamp = py_int now\<rparr>,
                   d\<lparr>prev_state := Some NO_FACE, last_publish_time := now\<rparr>))"
proof -
  have c: "classify d fr frame_width = Inr (NO_FACE, 0, 0)"
    using assms by (auto simp: classify_def Let_def)
  show ?thesis
    by (simp add: c compute_gate [OF c] py_round_zero)
qed

theorem no_face_witness:
  "state \<lparr>state = Some ''searching'', face_box = Some (200, 0, 248, 10),
          lock_confidence = Some 0.9\<rparr> = Some ''searching''
   \<and> compute 1 5.5 (detector_init 0.1 0.05)
       \<lparr>state = Some ''searching'', face_box = Some (200, 0, 248, 10), lock_confidence = Some 0.9\<rparr> 0
     = Inr (Some \<lparr>status = NO_FACE, confidence = 0, offset = 0, timestamp = 5\<rparr>,
            \<lparr>dead_zone_ratio = 0.1, hysteresis_ratio = 0.05, prev_state = Some NO_FACE,
              last_publish_time = 5.5\<rparr>)"
proof -
  let ?fr = "\<lparr>state = Some ''searching'', face_box = Some (200, 0, 248, 10), lock_confidence = Some 0.9\<rparr>"
  have h: "state ?fr = None \<or> state ?fr = Some ''searching'' \<or> face_box ?fr = None" by simp
  have e: "compute 1 5.5 (detector_init 0.1 0.05) ?fr 0 \<noteq> Inr (None, detector_init 0.1 0.05)"
    by (simp add: compute_def classify_def detector_init_def Let_def)
  from no_face [OF h, of "detector_init 0.1 0.05" 0 1 "5.5"] e
  have "compute 1 5.5 (detector_init 0.1 0.05) ?fr 0
          = Inr (Some \<lparr>status = NO_FACE, confidence = 0, offset = 0, timestamp = py_int 5.5\<rparr>,
                 (detector_init 0.1 0.05)\<lparr>prev_state := Some NO_FACE, last_publish_time := 5.5\<rparr>)"
    by blast
  then show ?thesis by (simp add: detector_init_def py_int_def)
qed

section \<open>The message handler and the loop\<close>

lemma tick_inactive: "\<not> active (sc w) \<Longrightarrow> tick cfg t w = w"
  by (simp add: tick_def)

lemma sc_print [simp]: "sc (print l w) = sc w"
  by (simp add: print_def)

lemma sv_print [simp]: "sv (print l w) = sv w"
  by (simp add: print_def)

lemma proportional_step_zero: "proportional_step cfg 0 = SERVO_STEP_MIN cfg"
  by (simp add: proportional_step_def py_int_def Let_def)

text \<open>What the handler does with a decoded object, by status.\<close>

lemma on_message_object:
  assumes "json_loads msg = Some (JObj kvs)"
  shows "on_message cfg json_loads now topic msg w =
     (let status = (case map_of kvs ''status'' of Some v \<Rightarrow> v | None \<Rightarrow> JStr []);
          offset = (case map_of kvs ''offset'' of Some v \<Rightarrow> v | None \<Rightarrow> JNum 0);
          w1 = w\<lparr>sc := scanner_stop (sc w)\<rparr>
      in if status = JStr ''MOVE_LEFT'' then
           (case py_abs offset of
              Inl e \<Rightarrow> (w1, Some e)
            | Inr offset_abs \<Rightarrow>
                (print (LogLeft (angle (move_proportional cfg (- 1) offset_abs (sv w))) offset)
                   (w1\<lparr>sv := move_proportional cfg (- 1) offset_abs (sv w)\<rparr>), None))
         else if status = JStr ''MOVE_RIGHT'' then
           (case py_abs offset of
              Inl e \<Rightarrow> (w1, Some e)
            | Inr offset_abs \<Rightarrow>
                (print (LogRight (angle (move_proportional cfg 1 offset_abs (sv w))) offset)
                   (w1\<lparr>sv := move_proportional cfg 1 offset_abs (sv w)\<rparr>), None))
         else if status = JStr ''CENTERED'' then (w1, None)
         else if status = JStr ''NO_FACE'' then (w\<lparr>sc := scanner_start now (sc w)\<rparr>, None)
         else (print (LogUnknownStatus status) w, None))"
  using assms
  by (simp add: on_message_def dict_get_def Let_def get_angle_def split: option.split sum.split)

lemma msg_status_object:
  "json_loads msg = Some (JObj kvs) \<Longrightarrow>
   msg_status json_loads msg = Some (case map_of kvs ''status'' of Some v \<Rightarrow> v | None \<Rightarrow> JStr [])"
  by (simp add: msg_status_def split: option.split)

lemma msg_status_SomeD:
  "msg_status json_loads msg = Some v \<Longrightarrow>
   \<exists>kvs. json_loads msg = Some (JObj kvs)
     \<and> (case map_of kvs ''status'' of Some v \<Rightarrow> v | None \<Rightarrow> JStr []) = v"
  by (auto simp: msg_status_def split: option.splits json.splits)

lemma on_message_motion_stops:
  assumes "is_motion_command json_loads msg"
  shows "\<not> active (sc (fst (on_message cfg json_loads now topic msg w)))"
proof -
  from assms obtain v where v: "msg_status json_loads msg = Some v"
    and vv: "v = JStr ''MOVE_LEFT'' \<or> v = JStr ''MOVE_RIGHT'' \<or> v = JStr ''CENTERED''"
    by (auto simp: is_motion_command_def)
  from msg_status_SomeD [OF v] obtain kvs where l: "json_loads msg = Some (JObj kvs)"
    and s: "(case map_of kvs ''status'' of Some v \<Rightarrow> v | None \<Rightarrow> JStr []) = v" by blast
  show ?thesis
    using vv unfolding on_message_object [where json_loads = json_loads and msg = msg, OF l] Let_def s
    by (auto simp: scanner_stop_def split: sum.split)
qed

lemma on_message_keeps_inactive:
  assumes "\<not> active (sc w)" and "msg_status json_loads msg \<noteq> Some (JStr ''NO_FACE'')"
  shows "\<not> active (sc (fst (on_message cfg json_loads now topic msg w)))"
proof (cases "json_loads msg")
  case None
  then show ?thesis using assms(1) by (simp add: on_message_def)
next
  case (Some payload)
  show ?thesis
  proof (cases "\<exists>kvs. payload = JObj kvs")
    case True
    then obtain kvs where l: "json_loads msg = Some (JObj kvs)" using Some by blast
    have "(case map_of kvs ''status'' of Some v \<Rightarrow> v | None \<Rightarrow> JStr []) \<noteq> JStr ''NO_FACE''"
      using assms(2) msg_status_object [where json_loads = json_loads and msg = msg, OF l] by simp
    then show ?thesis
      using assms(1) unfolding on_message_object [where json_loads = json_loads and msg = msg, OF l] Let_def
      by (auto simp: scanner_stop_def split: sum.split)
  next
    case False
    then have "dict_get payload ''status'' (JStr []) = Inl AttributeError"
      by (cases payload) (simp_all add: dict_get_def)
    then show ?thesis using Some assms(1) by (simp add: on_message_def)
  qed
qed

lemma iteration_keeps_inactive:
  assumes "\<not> active (sc w)" and "\<not> is_no_face json_loads i"
  shows "\<not> active (sc (iteration cfg json_loads i w))"
proof (cases "polled i")
  case NoMessage
  then show ?thesis using assms(1) by (simp add: iteration_def tick_inactive)
next
  case TransportError
  then show ?thesis using assms(1) by (simp add: iteration_def)
next
  case (Message topic msg)
  with assms(2) have n: "msg_status json_loads msg \<noteq> Some (JStr ''NO_FACE'')"
    by (simp add: is_no_face_def)
  have k: "\<not> active (sc (fst (on_message cfg json_loads (t_msg i) topic msg w)))"
    by (rule on_message_keeps_inactive [OF assms(1) n])
  show ?thesis
    using k Message
    by (cases "on_message cfg json_loads (t_msg i) topic msg w")
       (auto simp: iteration_def tick_inactive split: option.split)
qed

lemma run_loop_keeps_inactive:
  "\<not> active (sc w) \<Longrightarrow> \<forall>j \<in> set js. \<not> is_no_face json_loads j
   \<Longrightarrow> \<not> active (sc (run_loop cfg json_loads js w))"
  by (induction js arbitrary: w) (simp_all add: iteration_keeps_inactive)

lemma iteration_motion:
  assumes "polled i = Message topic msg" and "is_motion_command json_loads msg"
  shows "iteration cfg json_loads i w = fst (on_message cfg json_loads (t_msg i) topic msg w)"
proof -
  have k: "\<not> active (sc (fst (on_message cfg json_loads (t_msg i) topic msg w)))"
    by (rule on_message_motion_stops [OF assms(2)])
  show ?thesis
    using k assms(1)
    by (cases "on_message cfg json_loads (t_msg i) topic msg w")
       (auto simp: iteration_def tick_inactive split: option.split)
qed

text \<open>
  Claim C4. When the loop receives a message whose status is \<open>MOVE_LEFT\<close>, \<open>MOVE_RIGHT\<close>
  or \<open>CENTERED\<close>, the handler leaves the scanner stopped in every outcome, also when the
  move raises; the servo is either untouched or moved from the state in which the
  scanner is already inactive; the tick of the same pass does nothing. From any state,
  after that pass and any further passes without a \<open>NO_FACE\<close> message, the scanner is
  inactive and a tick at any time changes nothing.
\<close>
theorem scan_motion_exclusive:
  assumes cmd: "is_motion_command json_loads msg"
    and poll: "polled i = Message topic msg"
    and post: "\<forall>j \<in> set post. \<not> is_no_face json_loads j"
  shows "(let w1 = w\<lparr>sc := scanner_stop (sc w)\<rparr>;
              w' = fst (on_message cfg json_loads (t_msg i) topic msg w)
          in \<not> active (sc w1) \<and> sc w' = sc w1
             \<and> (sv w' = sv w1 \<or> (\<exists>dir off. sv w' = move_proportional cfg dir off (sv w1)))
             \<and> iteration cfg json_loads i w = w')
       \<and> (\<forall>n t. let w'' = run_loop cfg json_loads (i # take n post) w
                 in \<not> active (sc w'') \<and> tick cfg t w'' = w'')"
proof -
  from cmd obtain v where v: "msg_status json_loads msg = Some v"
    and vv: "v = JStr ''MOVE_LEFT'' \<or> v = JStr ''MOVE_RIGHT'' \<or> v = JStr ''CENTERED''"
    by (auto simp: is_motion_command_def)
  from msg_status_SomeD [OF v] obtain kvs where l: "json_loads msg = Some (JObj kvs)"
    and s: "(case map_of kvs ''status'' of Some v \<Rightarrow> v | None \<Rightarrow> JStr []) = v" by blast
  let ?w' = "fst (on_message cfg json_loads (t_msg i) topic msg w)"
  have a: "\<not> active (sc (w\<lparr>sc := scanner_stop (sc w)\<rparr>))" by (simp add: scanner_stop_def)
  have b: "sc ?w' = scanner_stop (sc w)"
    using vv unfolding on_message_object [where json_loads = json_loads and msg = msg, OF l] Let_def s
    by (auto split: sum.split)
  have c: "sv ?w' = sv w \<or> (\<exists>dir off. sv ?w' = move_proportional cfg dir off (sv w))"
    using vv unfolding on_message_object [where json_loads = json_loads and msg = msg, OF l] Let_def s
    by (auto split: sum.split)
  have d: "iteration cfg json_loads i w = ?w'"
    by (rule iteration_motion [OF poll cmd])
  have e: "\<not> active (sc (run_loop cfg json_loads (i # take n post) w))" for n
  proof -
    have "\<forall>j \<in> set (take n post). \<not> is_no_face json_loads j"
      using post by (meson in_set_takeD)
    moreover have "\<not> active (sc (iteration cfg json_loads i w))"
      unfolding d by (rule on_message_motion_stops [OF cmd])
    ultimately show ?thesis by (simp add: run_loop_keeps_inactive)
  qed
  show ?thesis
    unfolding Let_def using a b c d e by (simp add: tick_inactive)
qed


theorem scan_motion_exclusive_witness:
  "(let loads = (\<lambda>m. if m = ''R'' then Some (JObj [(''status'', JStr ''MOVE_RIGHT''), (''offset'', JNum 0.25)])
                      else if m = ''N'' then Some (JObj [(''status'', JStr ''NO_FACE'')])
                      else None);
        w = (world_init shipped_config)\<lparr>sc := scanner_start 0 scanner_init\<rparr>;
        i = \<lparr>polled = Message ''t'' ''R'', t_msg = 400, t_tick = 500\<rparr>;
        post = [\<lparr>polled = NoMessage, t_msg = 0, t_tick = 1000\<rparr>,
                \<lparr>polled = Message ''t'' ''junk'', t_msg = 1400, t_tick = 1500\<rparr>];
        w' = run_loop shipped_config loads (i # post) w
    in is_motion_command loads ''R'' \<and> polled i = Message ''t'' ''R''
       \<and> (\<forall>j \<in> set post. \<not> is_no_face loads j)
       \<and> active (sc w) \<and> \<not> active (sc w') \<and> tick shipped_config 2000 w' = w')"
proof -
  let ?loads = "\<lambda>m. if m = ''R'' then Some (JObj [(''status'', JStr ''MOVE_RIGHT''), (''offset'', JNum 0.25)])
                      else if m = ''N'' then Some (JObj [(''status'', JStr ''NO_FACE'')])
                      else None"
  let ?w = "(world_init shipped_config)\<lparr>sc := scanner_start 0 scanner_init\<rparr>"
  let ?i = "\<lparr>polled = Message ''t'' ''R'', t_msg = 400, t_tick = 500\<rparr>"
  let ?post = "[\<lparr>polled = NoMessage, t_msg = 0, t_tick = 1000\<rparr>,
                \<lparr>polled = Message ''t'' ''junk'', t_msg = 1400, t_tick = 1500\<rparr>]"
  have h1: "is_motion_command ?loads ''R''"
    by (simp add: is_motion_command_def msg_status_def)
  have h2: "polled ?i = Message ''t'' ''R''" by simp
  have h3: "\<forall>j \<in> set ?post. \<not> is_no_face ?loads j"
    by (simp add: is_no_face_def msg_status_def)
  have h4: "active (sc ?w)" by (simp add: scanner_start_def scanner_init_def)
  from scan_motion_exclusive [OF h1 h2 h3, of ?w shipped_config]
  have "\<forall>n t. let w'' = run_loop shipped_config ?loads (?i # take n ?post) ?w
               in \<not> active (sc w'') \<and> tick shipped_config t w'' = w''"
    by blast
  then have "let w'' = run_loop shipped_config ?loads (?i # take 2 ?post) ?w
               in \<not> active (sc w'') \<and> tick shipped_config 2000 w'' = w''"
    by blast
  then have "let w'' = run_loop shipped_config ?loads (?i # ?post) ?w
               in \<not> active (sc w'') \<and> tick shipped_config 2000 w'' = w''"
    by simp
  with h1 h2 h3 h4 show ?thesis unfolding Let_def by blast
qed

text \<open>
  Claim C10. For a decoded JSON object: without a \<open>status\<close> member the handler takes the
  unknown-status branch with the empty string, prints it, raises nothing and leaves servo
  and scanner as they were; a \<open>MOVE_LEFT\<close> or \<open>MOVE_RIGHT\<close> without an \<open>offset\<close> member
  stops the scanner and moves the servo by \<open>SERVO_STEP_MIN\<close> (clamped to the limits).
\<close>
theorem missing_fields_default:
  assumes "json_loads msg = Some (JObj kvs)"
  shows "(let r = on_message cfg json_loads now topic msg w
          in (map_of kvs ''status'' = None \<longrightarrow>
                snd r = None \<and> sv (fst r) = sv w \<and> sc (fst r) = sc w
                \<and> console (fst r) = console w @ [LogUnknownStatus (JStr [])])
           \<and> (map_of kvs ''offset'' = None \<and> map_of kvs ''status'' = Some (JStr ''MOVE_LEFT'') \<longrightarrow>
                snd r = None \<and> sc (fst r) = scanner_stop (sc w)
                \<and> sv (fst r) = set_angle cfg (angle (sv w) - SERVO_STEP_MIN cfg) (sv w)
                \<and> angle (sv (fst r)) = clamp_angle cfg (angle (sv w) - SERVO_STEP_MIN cfg))
           \<and> (map_of kvs ''offset'' = None \<and> map_of kvs ''status'' = Some (JStr ''MOVE_RIGHT'') \<longrightarrow>
                snd r = None \<and> sc (fst r) = scanner_stop (sc w)
                \<and> sv (fst r) = set_angle cfg (angle (sv w) + SERVO_STEP_MIN cfg) (sv w)
                \<and> angle (sv (fst r)) = clamp_angle cfg (angle (sv w) + SERVO_STEP_MIN cfg)))"
  unfolding on_message_object [where json_loads = json_loads and msg = msg, OF assms] Let_def
  by (simp add: py_abs_def move_proportional_def proportional_step_zero angle_set_angle print_def)

theorem missing_fields_default_witness:
  "(let loads = (\<lambda>m. if m = ''L'' then Some (JObj [(''status'', JStr ''MOVE_LEFT'')]) else None);
        w = world_init shipped_config;
        r = on_message shipped_config loads 0 ''t'' ''L'' w
    in loads ''L'' = Some (JObj [(''status'', JStr ''MOVE_LEFT'')])
       \<and> map_of [(''status'', JStr ''MOVE_LEFT'')] ''offset'' = None
       \<and> map_of [(''status'', JStr ''MOVE_LEFT'')] ''status'' = Some (JStr ''MOVE_LEFT'')
       \<and> angle (sv w) = 90 \<and> snd r = None \<and> angle (sv (fst r)) = 89)"
proof -
  let ?loads = "\<lambda>m. if m = ''L'' then Some (JObj [(''status'', JStr ''MOVE_LEFT'')]) else None"
  let ?w = "world_init shipped_config"
  have h: "?loads ''L'' = Some (JObj [(''status'', JStr ''MOVE_LEFT'')])" by simp
  have k1: "map_of [(''status'', JStr ''MOVE_LEFT'')] ''offset'' = None" by simp
  have k2: "map_of [(''status'', JStr ''MOVE_LEFT'')] ''status'' = Some (JStr ''MOVE_LEFT'')" by simp
  have a: "angle (sv ?w) = 90"
    by (simp add: world_init_def servo_startup_def center_def angle_set_angle clamp_angle_def
          shipped_config_def)
  from missing_fields_default [where json_loads = ?loads and msg = "''L''", OF h,
        of shipped_config 0 "''t''" ?w] k1 k2
  have "snd (on_message shipped_config ?loads 0 ''t'' ''L'' ?w) = None"
    and "angle (sv (fst (on_message shipped_config ?loads 0 ''t'' ''L'' ?w)))
           = clamp_angle shipped_config (angle (sv ?w) - SERVO_STEP_MIN shipped_config)"
    unfolding Let_def by blast+
  then have "snd (on_message shipped_config ?loads 0 ''t'' ''L'' ?w) = None"
    and "angle (sv (fst (on_message shipped_config ?loads 0 ''t'' ''L'' ?w))) = 89"
    unfolding a by (simp_all add: clamp_angle_def shipped_config_def)
  with h k1 k2 a show ?thesis unfolding Let_def by blast
qed

text \<open>
  Claim C5 at two malformed payloads. A JSON array is not caught by the handler's
  \<open>try\<close>: \<open>AttributeError\<close> escapes it. A \<open>MOVE_LEFT\<close> whose offset is a string stops an
  active scanner and then raises \<open>TypeError\<close> out of the handler.
\<close>
theorem bad_payload_escapes:
  \<open>on_message shipped_config (\<lambda>m. Some (JArr [JNum 1, JNum 2])) 0 ''t'' ''[1, 2]''
      (world_init shipped_config)
     = (world_init shipped_config, Some AttributeError)
   \<and> (let w = (world_init shipped_config)\<lparr>sc := scanner_start 0 scanner_init\<rparr>;
           r = on_message shipped_config
                 (\<lambda>m. Some (JObj [(''status'', JStr ''MOVE_LEFT''), (''offset'', JStr ''far'')]))
                 0 ''t'' ''{"status": "MOVE_LEFT", "offset": "far"}'' w
       in active (sc w) \<and> snd r = Some TypeError \<and> \<not> active (sc (fst r)) \<and> sv (fst r) = sv w)\<close>
  by (simp add: on_message_def dict_get_def py_abs_def scanner_start_def scanner_stop_def
        scanner_init_def Let_def)

end
